theory Spec2Isabelle
  imports Complex_Main "HOL-Library.Sublist"
begin

section \<open>Errors\<close>

text \<open>The class \<^verbatim>\<open>HTTPError\<close> of \<^verbatim>\<open>scripts/lib/http.py\<close>: a message and three optional fields.\<close>

record http_error =
  message :: string
  status_code :: "int option"
  body :: "string option"
  retry_after :: "real option"

definition new_HTTPError :: "string \<Rightarrow> int option \<Rightarrow> string option \<Rightarrow> real option \<Rightarrow> http_error" where
  "new_HTTPError msg code b hint = \<lparr>message = msg, status_code = code, body = b, retry_after = hint\<rparr>"

text \<open>
  What the functions of the module can raise: the module's own \<^verbatim>\<open>HTTPError\<close>; the
  \<^verbatim>\<open>ValueError\<close> of \<^verbatim>\<open>time.sleep\<close> and of the constructor of \<^verbatim>\<open>urllib.request.Request\<close>;
  the \<^verbatim>\<open>TypeError\<close> of \<^verbatim>\<open>json.dumps\<close>; the \<^verbatim>\<open>OverflowError\<close> of converting an integer
  to a float; and any exception of an attempt that no \<^verbatim>\<open>except\<close> clause catches.
\<close>

datatype error =
    HTTPError http_error
  | ValueError string
  | TypeError string
  | OverflowError string
  | Uncaught string

section \<open>The retry delay of \<^verbatim>\<open>scripts/lib/http.py\<close>\<close>

text \<open>
  Python integers are \<^typ>\<open>int\<close>. Python floats are modelled as real numbers, and one
  limit of binary64 is modelled with them: the product \<^verbatim>\<open>base * (2 ** attempt)\<close> converts
  the integer \<^verbatim>\<open>2 ** attempt\<close> to a float, which raises \<^verbatim>\<open>OverflowError\<close> from
  \<^verbatim>\<open>2 ** 1024\<close> on. For the attempts 0 to 1023 the product of the code is the real product
  or, beyond the largest float, \<^verbatim>\<open>inf\<close>, and \<^verbatim>\<open>min\<close> brings both to the same capped delay.
  The jitter and its sum with the capped delay are not rounded in the model: there the
  delay of the code is the rounded delay of the model. The capped delay and 1.25 times
  it are floats, so rounding, which is monotone, keeps a delay between them. The
  underflow of \<^verbatim>\<open>2 ** attempt\<close> for a negative attempt and the special values \<^verbatim>\<open>inf\<close> and
  \<^verbatim>\<open>nan\<close> of a hint are outside the model.
\<close>

definition MAX_RETRIES :: int where
  "MAX_RETRIES = 3"

definition RETRY_BASE_DELAY :: real where
  "RETRY_BASE_DELAY = 2"

definition RETRY_429_BASE_DELAY :: real where
  "RETRY_429_BASE_DELAY = 5"

definition RETRY_MAX_DELAY :: real where
  "RETRY_MAX_DELAY = 60"

text \<open>
  \<^verbatim>\<open>2 ** attempt\<close> for an integer exponent: an integer power for \<open>attempt \<ge> 0\<close>, and
  the float \<open>1 / 2 ** (-attempt)\<close> for a negative one.
\<close>

definition pow2 :: "int \<Rightarrow> real" where
  "pow2 attempt = (if 0 \<le> attempt then 2 ^ nat attempt else 1 / 2 ^ nat (- attempt))"

text \<open>
  \<^verbatim>\<open>_get_retry_delay(attempt, is_rate_limit, retry_after)\<close>: the delay it returns
  (\<open>Inr\<close>) or the error it raises (\<open>Inl\<close>). The argument \<open>hint\<close> is \<^verbatim>\<open>retry_after\<close>, and
  the fourth argument is the value that the call of \<^verbatim>\<open>random.random()\<close> returns; the
  hinted path never draws it.
\<close>

definition get_retry_delay :: "int \<Rightarrow> bool \<Rightarrow> real option \<Rightarrow> real \<Rightarrow> error + real" where
  "get_retry_delay attempt is_rate_limit hint rnd =
     (case hint of
        Some h \<Rightarrow> Inr (min h RETRY_MAX_DELAY)
      | None \<Rightarrow>
          (let base = (if is_rate_limit then RETRY_429_BASE_DELAY else RETRY_BASE_DELAY)
           in if 1024 \<le> attempt then Inl (OverflowError ''int too large to convert to float'')
              else
                (let delay = base * pow2 attempt;
                     delay = min delay RETRY_MAX_DELAY;
                     jitter = delay * 0.25 * rnd
                 in Inr (delay + jitter))))"

section \<open>The request loop of \<^verbatim>\<open>scripts/lib/http.py\<close>\<close>

definition DEFAULT_TIMEOUT :: int where
  "DEFAULT_TIMEOUT = 30"

definition USER_AGENT :: string where
  "USER_AGENT = ''last30days-skill/1.0 (Claude Code Skill)''"

datatype json = JNull | JBool bool | JNum real | JStr string | JArr "json list"
  | JObj "(string \<times> json) list"

record request_obj =
  req_url :: string
  req_data :: "string option"
  req_headers :: "string \<rightharpoonup> string"
  req_method :: string

text \<open>
  What the body of the \<^verbatim>\<open>try\<close> block brings up to the call of \<^verbatim>\<open>json.loads\<close>:
  \<^item> \<open>Response b\<close>: \<^verbatim>\<open>urlopen\<close> returned and the body was read and decoded to \<open>b\<close>;
  \<^item> \<open>HTTP_Failure code reason b raw\<close>: \<^verbatim>\<open>urllib.error.HTTPError\<close> with its code and
    reason, the body read from it (\<open>None\<close> when reading or decoding fails) and the
    value of its \<^verbatim>\<open>Retry-After\<close> header (\<open>None\<close> without headers or without that header);
  \<^item> \<open>URL_Failure reason\<close>: a \<^verbatim>\<open>urllib.error.URLError\<close> that is no \<^verbatim>\<open>HTTPError\<close>;
  \<^item> \<open>OS_Failure name msg\<close>: another \<^verbatim>\<open>OSError\<close> (timeout, connection reset), with
    the name of its type and its text;
  \<^item> \<open>Other_Failure name\<close>: an exception that none of the clauses catches.
\<close>

datatype outcome =
    Response string
  | HTTP_Failure int string "string option" "string option"
  | URL_Failure string
  | OS_Failure string string
  | Other_Failure string

text \<open>
  The world outside the module: the outcome of the call of \<^verbatim>\<open>urlopen\<close> made at an
  attempt, \<^verbatim>\<open>float\<close> on a header value (\<open>None\<close> for its \<^verbatim>\<open>ValueError\<close>),
  \<^verbatim>\<open>json.loads\<close> (\<open>Inl\<close> the text of its \<^verbatim>\<open>JSONDecodeError\<close>), \<^verbatim>\<open>json.dumps\<close> (\<open>Inl\<close>
  the error it raises for a value it cannot serialise), the error that the constructor
  of \<^verbatim>\<open>urllib.request.Request\<close> raises for a URL, a body, headers and a method (a
  \<^verbatim>\<open>ValueError\<close> for a URL without a scheme; \<open>None\<close> when it returns), and the value
  \<^verbatim>\<open>random.random()\<close> returns when it is called at an attempt.
\<close>

record world =
  urlopen :: "request_obj \<Rightarrow> int \<Rightarrow> int \<Rightarrow> outcome"
  float_str :: "string \<Rightarrow> real option"
  json_loads :: "string \<Rightarrow> string + json"
  json_dumps :: "json \<Rightarrow> error + string"
  Request_raises :: "string \<Rightarrow> string option \<Rightarrow> (string \<rightharpoonup> string) \<Rightarrow> string \<Rightarrow> error option"
  random_random :: "int \<Rightarrow> real"

text \<open>The effects of a call, in order: a call of \<^verbatim>\<open>urlopen\<close>, a completed \<^verbatim>\<open>time.sleep\<close>.\<close>

datatype event = Attempt int | Sleep real

text \<open>\<^verbatim>\<open>time.sleep\<close> refuses a negative duration.\<close>

definition sleep :: "real \<Rightarrow> error + unit" where
  "sleep secs = (if secs < 0 then Inl (ValueError ''sleep length must be non-negative'') else Inr ())"

definition then_events :: "event list \<Rightarrow> ('a \<times> event list) \<Rightarrow> 'a \<times> event list" where
  "then_events evs r = (fst r, evs @ snd r)"

text \<open>\<^verbatim>\<open>str\<close> of an integer, for the message \<^verbatim>\<open>f"HTTP {e.code}: {e.reason}"\<close>.\<close>

fun str_nat :: "nat \<Rightarrow> string" where
  "str_nat n =
     (if 10 \<le> n then str_nat (n div 10) @ [''0123456789'' ! (n mod 10)]
      else [''0123456789'' ! n])"

declare str_nat.simps [simp del]

definition str_int :: "int \<Rightarrow> string" where
  "str_int i = (if i < 0 then CHR ''-'' # str_nat (nat (- i)) else str_nat (nat i))"

text \<open>
  The lines under \<^verbatim>\<open># Parse Retry-After header if present\<close>: no hint for a missing or
  empty header value and for one that \<^verbatim>\<open>float\<close> rejects.
\<close>

definition parse_retry_after :: "world \<Rightarrow> string option \<Rightarrow> real option" where
  "parse_retry_after w retry_after_raw =
     (case retry_after_raw of
        None \<Rightarrow> None
      | Some raw \<Rightarrow> if raw \<noteq> [] then float_str w raw else None)"

text \<open>
  The \<^verbatim>\<open>for attempt in range(retries)\<close> loop of \<^verbatim>\<open>request\<close> with the code after it,
  from the iteration \<open>attempt\<close> on. The result is what the call returns (\<open>Inr\<close>) or
  raises (\<open>Inl\<close>), with the events from this iteration on. An error that
  \<^verbatim>\<open>_get_retry_delay\<close> or \<^verbatim>\<open>time.sleep\<close> raises inside an \<^verbatim>\<open>except\<close> clause leaves the
  call. Debug logging is left out.
\<close>

function request_loop ::
  "world \<Rightarrow> request_obj \<Rightarrow> int \<Rightarrow> int \<Rightarrow> int \<Rightarrow> http_error option
    \<Rightarrow> (error + json) \<times> event list"
where
  "request_loop w req timeout retries attempt last_error =
     (if attempt < retries then
        (case urlopen w req timeout attempt of
           Response resp_body \<Rightarrow>
             (if resp_body \<noteq> [] then
                (case json_loads w resp_body of
                   Inr v \<Rightarrow> (Inr v, [Attempt attempt])
                 | Inl e \<Rightarrow>
                     (Inl (HTTPError (new_HTTPError (''Invalid JSON response: '' @ e) None None None)),
                      [Attempt attempt]))
              else (Inr (JObj []), [Attempt attempt]))
         | HTTP_Failure code reason err_body retry_after_raw \<Rightarrow>
             (let retry_after = parse_retry_after w retry_after_raw;
                  last_error =
                    new_HTTPError (''HTTP '' @ str_int code @ '': '' @ reason) (Some code) err_body
                      retry_after
              in if 400 \<le> code \<and> code < 500 \<and> code \<noteq> 429 then
                   (Inl (HTTPError last_error), [Attempt attempt])
                 else if attempt < retries - 1 then
                   (let is_rate_limit = (code = 429)
                    in case get_retry_delay attempt is_rate_limit retry_after
                              (random_random w attempt) of
                         Inl err \<Rightarrow> (Inl err, [Attempt attempt])
                       | Inr delay \<Rightarrow>
                           (case sleep delay of
                              Inl err \<Rightarrow> (Inl err, [Attempt attempt])
                            | Inr _ \<Rightarrow>
                                then_events [Attempt attempt, Sleep delay]
                                  (request_loop w req timeout retries (attempt + 1)
                                     (Some last_error))))
                 else
                   then_events [Attempt attempt]
                     (request_loop w req timeout retries (attempt + 1) (Some last_error)))
         | URL_Failure reason \<Rightarrow>
             (let last_error = new_HTTPError (''URL Error: '' @ reason) None None None
              in if attempt < retries - 1 then
                   (case get_retry_delay attempt False None (random_random w attempt) of
                      Inl err \<Rightarrow> (Inl err, [Attempt attempt])
                    | Inr delay \<Rightarrow>
                        (case sleep delay of
                           Inl err \<Rightarrow> (Inl err, [Attempt attempt])
                         | Inr _ \<Rightarrow>
                             then_events [Attempt attempt, Sleep delay]
                               (request_loop w req timeout retries (attempt + 1)
                                  (Some last_error))))
                 else
                   then_events [Attempt attempt]
                     (request_loop w req timeout retries (attempt + 1) (Some last_error)))
         | OS_Failure name msg \<Rightarrow>
             (let last_error =
                    new_HTTPError (''Connection error: '' @ name @ '': '' @ msg) None None None
              in if attempt < retries - 1 then
                   (case get_retry_delay attempt False None (random_random w attempt) of
                      Inl err \<Rightarrow> (Inl err, [Attempt attempt])
                    | Inr delay \<Rightarrow>
                        (case sleep delay of
                           Inl err \<Rightarrow> (Inl err, [Attempt attempt])
                         | Inr _ \<Rightarrow>
                             then_events [Attempt attempt, Sleep delay]
                               (request_loop w req timeout retries (attempt + 1)
                                  (Some last_error))))
                 else
                   then_events [Attempt attempt]
                     (request_loop w req timeout retries (attempt + 1) (Some last_error)))
         | Other_Failure name \<Rightarrow> (Inl (Uncaught name), [Attempt attempt]))
      else
        (case last_error of
           Some e \<Rightarrow> (Inl (HTTPError e), [])
         | None \<Rightarrow>
             (Inl (HTTPError (new_HTTPError ''Request failed with no error details'' None None None)),
              [])))"
  by pat_completeness auto
termination
  by (relation "measure (\<lambda>(w, req, timeout, retries, attempt, last_error). nat (retries - attempt))")
    auto

declare request_loop.simps [simp del]

text \<open>\<^verbatim>\<open>headers.setdefault(k, v)\<close>.\<close>

definition setdefault :: "('k \<rightharpoonup> 'v) \<Rightarrow> 'k \<Rightarrow> 'v \<Rightarrow> ('k \<rightharpoonup> 'v)" where
  "setdefault d k v = (case d k of None \<Rightarrow> d(k \<mapsto> v) | Some _ \<Rightarrow> d)"

text \<open>
  The lines of \<^verbatim>\<open>request\<close> before the loop: the headers with their defaults, the
  serialised body, and the request object, or the error that \<^verbatim>\<open>json.dumps\<close> or the
  constructor of \<^verbatim>\<open>urllib.request.Request\<close> raises. \<^verbatim>\<open>headers or {}\<close> is the empty
  dictionary for \<^verbatim>\<open>None\<close> (and for an empty dictionary, which it leaves as it is). The
  argument \<open>json_data\<close> is a dictionary with string keys, as its annotation
  \<^verbatim>\<open>Optional[Dict[str, Any]]\<close> says, given by its items.
\<close>

definition build_request ::
  "world \<Rightarrow> string \<Rightarrow> string \<Rightarrow> (string \<rightharpoonup> string) option
    \<Rightarrow> (string \<times> json) list option \<Rightarrow> error + request_obj"
where
  "build_request w method url headers json_data =
     (let headers = (case headers of None \<Rightarrow> Map.empty | Some h \<Rightarrow> h);
          headers = setdefault headers ''User-Agent'' USER_AGENT
      in case (case json_data of
                 None \<Rightarrow> Inr (None, headers)
               | Some j \<Rightarrow>
                   (case json_dumps w (JObj j) of
                      Inl err \<Rightarrow> Inl err
                    | Inr s \<Rightarrow>
                        Inr (Some s, setdefault headers ''Content-Type'' ''application/json''))) of
           Inl err \<Rightarrow> Inl err
         | Inr (data, headers) \<Rightarrow>
             (case Request_raises w url data headers method of
                Some err \<Rightarrow> Inl err
              | None \<Rightarrow>
                  Inr \<lparr>req_url = url, req_data = data, req_headers = headers,
                       req_method = method\<rparr>))"

text \<open>\<^verbatim>\<open>request\<close>: an error before the loop leaves the call with no attempt made.\<close>

definition request ::
  "world \<Rightarrow> string \<Rightarrow> string \<Rightarrow> (string \<rightharpoonup> string) option
    \<Rightarrow> (string \<times> json) list option \<Rightarrow> int \<Rightarrow> int \<Rightarrow> (error + json) \<times> event list"
where
  "request w method url headers json_data timeout retries =
     (case build_request w method url headers json_data of
        Inl err \<Rightarrow> (Inl err, [])
      | Inr req \<Rightarrow> request_loop w req timeout retries 0 None)"

text \<open>\<^verbatim>\<open>get\<close> and \<^verbatim>\<open>post\<close>; the keyword arguments they pass on are the timeout and the retries.\<close>

definition get ::
  "world \<Rightarrow> string \<Rightarrow> (string \<rightharpoonup> string) option \<Rightarrow> int \<Rightarrow> int \<Rightarrow> (error + json) \<times> event list"
where
  "get w url headers timeout retries = request w ''GET'' url headers None timeout retries"

definition post ::
  "world \<Rightarrow> string \<Rightarrow> (string \<times> json) list \<Rightarrow> (string \<rightharpoonup> string) option \<Rightarrow> int \<Rightarrow> int
    \<Rightarrow> (error + json) \<times> event list"
where
  "post w url json_data headers timeout retries =
     request w ''POST'' url headers (Some json_data) timeout retries"

text \<open>
  \<^verbatim>\<open>str.startswith\<close>, \<^verbatim>\<open>str.endswith\<close> and \<^verbatim>\<open>str.rstrip(chars)\<close>, which removes every
  trailing character that occurs in \<open>chars\<close>.
\<close>

definition startswith :: "string \<Rightarrow> string \<Rightarrow> bool" where
  "startswith s p = prefix p s"

definition endswith :: "string \<Rightarrow> string \<Rightarrow> bool" where
  "endswith s p = suffix p s"

definition rstrip :: "string \<Rightarrow> string \<Rightarrow> string" where
  "rstrip s chars = rev (dropWhile (\<lambda>c. c \<in> set chars) (rev s))"

text \<open>The path that \<^verbatim>\<open>get_reddit_json\<close> computes from its argument.\<close>

definition reddit_path :: "string \<Rightarrow> string" where
  "reddit_path path =
     (let path = (if \<not> startswith path ''/'' then ''/'' @ path else path);
          path = rstrip path ''/'';
          path = (if \<not> endswith path ''.json'' then path @ ''.json'' else path)
      in path)"

definition get_reddit_json :: "world \<Rightarrow> string \<Rightarrow> (error + json) \<times> event list" where
  "get_reddit_json w path =
     (let path = reddit_path path;
          url = ''https://www.reddit.com'' @ path @ ''?raw_json=1'';
          headers = [''User-Agent'' \<mapsto> USER_AGENT, ''Accept'' \<mapsto> ''application/json'']
      in get w url (Some headers) DEFAULT_TIMEOUT MAX_RETRIES)"

section \<open>Deduplication in \<^verbatim>\<open>scripts/lib/websearch.py\<close>\<close>

text \<open>
  \<^verbatim>\<open>schema.WebSearchItem\<close>, with the fields that \<^verbatim>\<open>normalize_websearch_items\<close> gives
  its constructor. Deduplication reads the field \<open>url\<close> only.
\<close>

record WebSearchItem =
  item_id :: string
  title :: string
  url :: string
  source_domain :: string
  snippet :: string
  date :: "string option"
  date_confidence :: string
  relevance :: real
  why_relevant :: string

text \<open>
  \<^verbatim>\<open>str.lower\<close>, on the letters of ASCII; every other character is kept, also the
  letters beyond ASCII that \<^verbatim>\<open>str.lower\<close> lowercases. The theorems about the
  deduplication use the key of an item as a key only, whatever it is.
\<close>

definition lower_char :: "char \<Rightarrow> char" where
  "lower_char c =
     (case map_of (zip ''ABCDEFGHIJKLMNOPQRSTUVWXYZ'' ''abcdefghijklmnopqrstuvwxyz'') c of
        Some l \<Rightarrow> l
      | None \<Rightarrow> c)"

definition lower :: "string \<Rightarrow> string" where
  "lower s = map lower_char s"

text \<open>The key of an item: \<^verbatim>\<open>item.url.lower().rstrip("/")\<close>.\<close>

definition url_key :: "WebSearchItem \<Rightarrow> string" where
  "url_key item = rstrip (lower (url item)) ''/''"

text \<open>The loop of \<^verbatim>\<open>dedupe_websearch\<close> over the items left, with the set and the list it builds.\<close>

fun dedupe_loop :: "WebSearchItem list \<Rightarrow> string set \<Rightarrow> WebSearchItem list \<Rightarrow> WebSearchItem list" where
  "dedupe_loop [] seen_urls result = result"
| "dedupe_loop (item # items) seen_urls result =
     (if url_key item \<notin> seen_urls
      then dedupe_loop items (insert (url_key item) seen_urls) (result @ [item])
      else dedupe_loop items seen_urls result)"

definition dedupe_websearch :: "WebSearchItem list \<Rightarrow> WebSearchItem list" where
  "dedupe_websearch items = dedupe_loop items {} []"

section \<open>One retried attempt, stated apart\<close>

text \<open>
  For the statements about retried attempts: which outcomes the loop retries, the
  \<^verbatim>\<open>last_error\<close> it builds from such an outcome, the delay it computes at an attempt, and
  the events of a call that uses up its retries from an attempt on. The lemmas
  \<open>loop_retry_sleep\<close> and \<open>loop_retry_last\<close> below relate them to the loop.
\<close>

definition retryable :: "outcome \<Rightarrow> bool" where
  "retryable out =
     (case out of
        HTTP_Failure code reason err_body raw \<Rightarrow> \<not> (400 \<le> code \<and> code < 500 \<and> code \<noteq> 429)
      | URL_Failure reason \<Rightarrow> True
      | OS_Failure name msg \<Rightarrow> True
      | _ \<Rightarrow> False)"

definition failure_error :: "world \<Rightarrow> outcome \<Rightarrow> http_error" where
  "failure_error w out =
     (case out of
        HTTP_Failure code reason err_body raw \<Rightarrow>
          new_HTTPError (''HTTP '' @ str_int code @ '': '' @ reason) (Some code) err_body
            (parse_retry_after w raw)
      | URL_Failure reason \<Rightarrow> new_HTTPError (''URL Error: '' @ reason) None None None
      | OS_Failure name msg \<Rightarrow>
          new_HTTPError (''Connection error: '' @ name @ '': '' @ msg) None None None
      | _ \<Rightarrow> new_HTTPError [] None None None)"

definition backoff :: "world \<Rightarrow> int \<Rightarrow> outcome \<Rightarrow> error + real" where
  "backoff w attempt out =
     (case out of
        HTTP_Failure code reason err_body raw \<Rightarrow>
          get_retry_delay attempt (code = 429) (parse_retry_after w raw) (random_random w attempt)
      | _ \<Rightarrow> get_retry_delay attempt False None (random_random w attempt))"

definition retry_trace :: "world \<Rightarrow> request_obj \<Rightarrow> int \<Rightarrow> int \<Rightarrow> int \<Rightarrow> event list" where
  "retry_trace w req timeout retries attempt =
     concat (map (\<lambda>k. case backoff w k (urlopen w req timeout k) of
                        Inr delay \<Rightarrow> [Attempt k, Sleep delay]
                      | Inl err \<Rightarrow> [Attempt k])
       [attempt..retries - 2]) @ [Attempt (retries - 1)]"

section \<open>Example worlds\<close>

text \<open>
  Five scripted worlds on which the theorems below are run: a 503 response followed by
  404 responses; a 200 response whose body is no JSON; 500 responses only; 429
  responses that carry the header \<^verbatim>\<open>Retry-After: -5\<close>; and one in which the constructor
  of \<^verbatim>\<open>urllib.request.Request\<close> raises its \<^verbatim>\<open>ValueError\<close> for a URL without a colon.
\<close>

definition world_404_second :: world where
  "world_404_second =
     \<lparr>urlopen = (\<lambda>req timeout k.
          if k = 0 then HTTP_Failure 503 ''Service Unavailable'' None None
          else HTTP_Failure 404 ''Not Found'' (Some ''gone'') None),
      float_str = (\<lambda>s. None),
      json_loads = (\<lambda>s. Inl ''Expecting value: line 1 column 1 (char 0)''),
      json_dumps = (\<lambda>j. Inr ''{}''),
      Request_raises = (\<lambda>u d h m. None),
      random_random = (\<lambda>k. 0)\<rparr>"

definition world_bad_json :: world where
  "world_bad_json =
     \<lparr>urlopen = (\<lambda>req timeout k. Response ''<html>''),
      float_str = (\<lambda>s. None),
      json_loads = (\<lambda>s. Inl ''Expecting value: line 1 column 1 (char 0)''),
      json_dumps = (\<lambda>j. Inr ''{}''),
      Request_raises = (\<lambda>u d h m. None),
      random_random = (\<lambda>k. 0)\<rparr>"

definition world_always_500 :: world where
  "world_always_500 =
     \<lparr>urlopen = (\<lambda>req timeout k. HTTP_Failure 500 ''Internal Server Error'' None None),
      float_str = (\<lambda>s. None),
      json_loads = (\<lambda>s. Inl ''Expecting value: line 1 column 1 (char 0)''),
      json_dumps = (\<lambda>j. Inr ''{}''),
      Request_raises = (\<lambda>u d h m. None),
      random_random = (\<lambda>k. 0)\<rparr>"

definition world_negative_hint :: world where
  "world_negative_hint =
     \<lparr>urlopen = (\<lambda>req timeout k. HTTP_Failure 429 ''Too Many Requests'' None (Some ''-5'')),
      float_str = (\<lambda>s. if s = ''-5'' then Some (- 5) else None),
      json_loads = (\<lambda>s. Inl ''Expecting value: line 1 column 1 (char 0)''),
      json_dumps = (\<lambda>j. Inr ''{}''),
      Request_raises = (\<lambda>u d h m. None),
      random_random = (\<lambda>k. 0)\<rparr>"

definition world_checks_url :: world where
  "world_checks_url =
     \<lparr>urlopen = (\<lambda>req timeout k. Response ''{}''),
      float_str = (\<lambda>s. None),
      json_loads = (\<lambda>s. Inr (JObj [])),
      json_dumps = (\<lambda>j. Inr ''{}''),
      Request_raises = (\<lambda>u d h m.
          if CHR '':'' \<in> set u then None
          else Some (ValueError (''unknown url type: '' @ [CHR 0x27] @ u @ [CHR 0x27]))),
      random_random = (\<lambda>k. 0)\<rparr>"

text \<open>Three search results; the third has the key of the first.\<close>

definition example_items :: "WebSearchItem list" where
  "example_items =
     [\<lparr>item_id = ''W1'', title = ''First'', url = ''https://Example.com/a/'',
        source_domain = ''example.com'', snippet = ''one'', date = None,
        date_confidence = ''low'', relevance = 0.5, why_relevant = []\<rparr>,
      \<lparr>item_id = ''W2'', title = ''Second'', url = ''https://b.org'',
        source_domain = ''b.org'', snippet = ''two'', date = Some ''2026-01-02'',
        date_confidence = ''med'', relevance = 1, why_relevant = []\<rparr>,
      \<lparr>item_id = ''W3'', title = ''Third'', url = ''https://example.com/A'',
        source_domain = ''example.com'', snippet = ''three'', date = None,
        date_confidence = ''low'', relevance = 0.5, why_relevant = []\<rparr>]"

section \<open>Properties of the retry delay\<close>

lemma pow2_nonneg_index: "0 \<le> a \<Longrightarrow> pow2 a = 2 ^ nat a"
  by (simp add: pow2_def)

lemma pow2_pos: "0 < pow2 a"
  by (simp add: pow2_def)

lemma pow2_mono: "0 \<le> a \<Longrightarrow> a \<le> b \<Longrightarrow> pow2 a \<le> pow2 b"
  by (simp add: pow2_def)

lemma computed_delay:
  "a < 1024 \<Longrightarrow>
   get_retry_delay a rl None r =
     Inr (min ((if rl then 5 else 2) * pow2 a) 60 + min ((if rl then 5 else 2) * pow2 a) 60 * 0.25 * r)"
  by (simp add: get_retry_delay_def RETRY_429_BASE_DELAY_def RETRY_BASE_DELAY_def
      RETRY_MAX_DELAY_def Let_def)

lemma unjittered_delay:
  "a < 1024 \<Longrightarrow> get_retry_delay a rl None 0 = Inr (min ((if rl then 5 else 2) * pow2 a) 60)"
  by (simp add: computed_delay)

lemma get_retry_delay_overflow:
  "1024 \<le> a \<Longrightarrow>
   get_retry_delay a rl None r = Inl (OverflowError ''int too large to convert to float'')"
  by (simp add: get_retry_delay_def)

text \<open>
  C2. With a server hint \<open>h\<close> the delay is exactly \<open>min h 60\<close>, whatever the attempt
  index, the rate-limit flag and the random draw are: no jitter is added.
\<close>

theorem retry_after_honored:
  "get_retry_delay a rl (Some h) rnd = Inr (min h 60)"
  by (simp add: get_retry_delay_def RETRY_MAX_DELAY_def)

text \<open>
  C3. The claim says that the delay without jitter is \<open>min (2 * 2 ^ a) 60\<close> at every
  attempt \<open>a \<ge> 0\<close>. At attempt 1024 the conversion of \<^verbatim>\<open>2 ** 1024\<close> to a float raises
  \<^verbatim>\<open>OverflowError\<close> and no delay is returned. What the code gives, without a hint and
  with the jitter draw 0: for \<open>0 \<le> a \<le> 1023\<close> the delay is \<open>min (2 * 2 ^ a) 60\<close> (base 5
  instead of 2 for a rate limit), and where two attempts \<open>a \<le> b\<close> both return a delay,
  the one of \<open>b\<close> is not the smaller one.
\<close>

theorem unjittered_delay_exponential:
  assumes "0 \<le> a" and "a \<le> 1023"
  shows "get_retry_delay a False None 0 = Inr (min (2 * 2 ^ nat a) 60)
       \<and> get_retry_delay a True None 0 = Inr (min (5 * 2 ^ nat a) 60)
       \<and> (\<forall>b d d'. a \<le> b \<and> get_retry_delay a False None 0 = Inr d
              \<and> get_retry_delay b False None 0 = Inr d' \<longrightarrow> d \<le> d')"
proof -
  from assms have small: "a < 1024"
    by simp
  have eq: "get_retry_delay a rl None 0 = Inr (min ((if rl then 5 else 2) * 2 ^ nat a) 60)" for rl
    using assms(1) small by (simp add: unjittered_delay pow2_nonneg_index)
  have mono: "d \<le> d'"
    if "a \<le> b" and "get_retry_delay a False None 0 = Inr d"
      and "get_retry_delay b False None 0 = Inr d'" for b d d'
  proof -
    have b: "b < 1024"
    proof (rule ccontr)
      assume "\<not> b < 1024"
      then have "get_retry_delay b False None 0 =
          Inl (OverflowError ''int too large to convert to float'')"
        by (intro get_retry_delay_overflow) simp
      with that(3) show False
        by simp
    qed
    have "2 * pow2 a \<le> 2 * pow2 b"
      using pow2_mono [OF assms(1) that(1)] by simp
    then have "min (2 * pow2 a) 60 \<le> min (2 * pow2 b) (60::real)"
      by (simp add: min_le_iff_disj)
    with that(2,3) small b show ?thesis
      by (simp add: unjittered_delay)
  qed
  show ?thesis
  proof (intro conjI allI impI)
    show "get_retry_delay a False None 0 = Inr (min (2 * 2 ^ nat a) 60)"
      using eq [of False] by simp
    show "get_retry_delay a True None 0 = Inr (min (5 * 2 ^ nat a) 60)"
      using eq [of True] by simp
  next
    fix b d d'
    assume "a \<le> b \<and> get_retry_delay a False None 0 = Inr d
        \<and> get_retry_delay b False None 0 = Inr d'"
    then show "d \<le> d'"
      using mono by blast
  qed
qed

theorem unjittered_delay_exponential_witness:
  "get_retry_delay 2 False None 0 = Inr 8 \<and> get_retry_delay 2 True None 0 = Inr 20
   \<and> (\<exists>d d'. get_retry_delay 2 False None 0 = Inr d
         \<and> get_retry_delay 5 False None 0 = Inr d' \<and> d \<le> d')"
proof -
  have w: "get_retry_delay 2 False None 0 = Inr (min (2 * 2 ^ nat 2) 60)
      \<and> get_retry_delay 2 True None 0 = Inr (min (5 * 2 ^ nat 2) 60)
      \<and> (\<forall>b d d'. 2 \<le> b \<and> get_retry_delay 2 False None 0 = Inr d
              \<and> get_retry_delay b False None 0 = Inr d' \<longrightarrow> d \<le> d')"
    by (rule unjittered_delay_exponential) simp_all
  from w have two: "get_retry_delay 2 False None 0 = Inr 8"
    by simp
  from w have "get_retry_delay 2 True None 0 = Inr 20"
    by simp
  moreover have five: "get_retry_delay 5 False None 0 = Inr 60"
    by (simp add: unjittered_delay pow2_def)
  moreover from w have "(2::int) \<le> 5 \<and> get_retry_delay 2 False None 0 = Inr 8
      \<and> get_retry_delay 5 False None 0 = Inr 60 \<longrightarrow> (8::real) \<le> 60"
    by blast
  ultimately show ?thesis
    using two by simp
qed

theorem unjittered_delay_overflow:
  "get_retry_delay 1024 False None 0 = Inl (OverflowError ''int too large to convert to float'')
   \<and> get_retry_delay 1024 False None 0 \<noteq> Inr (min (2 * 2 ^ nat 1024) 60)"
  by (simp add: get_retry_delay_def)

text \<open>
  C5. The claim says that the delay lies between the capped exponential value and 1.25
  times that value at every attempt \<open>a \<ge> 0\<close>. At attempt 1024 the call raises
  \<^verbatim>\<open>OverflowError\<close> and returns no delay. What the code gives without a hint, for
  \<open>0 \<le> a \<le> 1023\<close> and a jitter draw \<open>r\<close> in \<open>[0, 1]\<close>: a delay between the capped value
  and 1.25 times that value; the draw \<open>r = 1\<close> gives the upper bound and the draw
  \<open>r = 0\<close> the capped value itself.
\<close>

theorem jitter_bounds:
  assumes "0 \<le> a" and "a \<le> 1023" and "0 \<le> r" and "r \<le> 1"
    and "capped_base = min ((if rl then RETRY_429_BASE_DELAY else RETRY_BASE_DELAY) * 2 ^ nat a) 60"
  shows "(\<exists>d. get_retry_delay a rl None r = Inr d \<and> capped_base \<le> d \<and> d \<le> capped_base * 1.25)
       \<and> get_retry_delay a rl None 1 = Inr (capped_base * 1.25)
       \<and> get_retry_delay a rl None 0 = Inr capped_base"
proof -
  from assms(2) have small: "a < 1024"
    by simp
  have d: "get_retry_delay a rl None x = Inr (capped_base + capped_base * 0.25 * x)" for x
    using assms(1,5) small
    by (simp add: computed_delay pow2_nonneg_index RETRY_429_BASE_DELAY_def RETRY_BASE_DELAY_def)
  have pos: "0 < capped_base"
    using assms(5) by (simp add: RETRY_429_BASE_DELAY_def RETRY_BASE_DELAY_def)
  have lower: "capped_base \<le> capped_base + capped_base * 0.25 * r"
    using pos assms(3) by simp
  have "capped_base * r \<le> capped_base * 1"
    using pos assms(4) by (intro mult_left_mono) simp_all
  then have upper: "capped_base + capped_base * 0.25 * r \<le> capped_base * 1.25"
    by simp
  show ?thesis
    unfolding d using lower upper by simp
qed

theorem jitter_bounds_witness:
  "(\<exists>d. get_retry_delay 1 True None 0.5 = Inr d \<and> 10 \<le> d \<and> d \<le> 12.5)
   \<and> get_retry_delay 1 True None 1 = Inr 12.5
   \<and> get_retry_delay 1 True None 0 = Inr 10"
proof -
  have "(\<exists>d. get_retry_delay 1 True None 0.5 = Inr d \<and> 10 \<le> d \<and> d \<le> 10 * 1.25)
      \<and> get_retry_delay 1 True None 1 = Inr (10 * 1.25)
      \<and> get_retry_delay 1 True None 0 = Inr 10"
    by (rule jitter_bounds [where a = 1 and r = "0.5" and rl = True and capped_base = 10])
      (simp_all add: RETRY_429_BASE_DELAY_def)
  then show ?thesis
    by simp
qed

theorem jitter_bounds_overflow:
  "get_retry_delay 1024 True None 0.5 = Inl (OverflowError ''int too large to convert to float'')
   \<and> \<not> (\<exists>d. get_retry_delay 1024 True None 0.5 = Inr d)"
  by (simp add: get_retry_delay_def)

text \<open>
  The delay is not negative when the hint, if there is one, and the draw are not, and
  the attempt is below 1024.
\<close>

lemma get_retry_delay_nonneg:
  assumes "0 \<le> rnd" and "\<And>h. hint = Some h \<Longrightarrow> 0 \<le> h" and "hint = None \<Longrightarrow> a < 1024"
  shows "\<exists>d. get_retry_delay a rl hint rnd = Inr d \<and> 0 \<le> d"
proof (cases hint)
  case None
  define m :: real where "m = min ((if rl then 5 else 2) * pow2 a) 60"
  have "0 \<le> m"
    using pow2_pos [of a] by (simp add: m_def)
  with assms(1) have "0 \<le> m + m * 0.25 * rnd"
    by simp
  moreover have "get_retry_delay a rl None rnd = Inr (m + m * 0.25 * rnd)"
    using assms(3) [OF None] by (simp add: computed_delay m_def)
  ultimately show ?thesis
    using None by simp
next
  case (Some h)
  with assms(2) show ?thesis
    by (simp add: get_retry_delay_def RETRY_MAX_DELAY_def)
qed

text \<open>
  C7. The claim says that the delay is never negative, also for a negative hint. The
  code caps the hint from above only: the header value \<^verbatim>\<open>-5\<close> gives the delay \<open>-5\<close>.
\<close>

theorem negative_hint_negative_delay:
  "get_retry_delay 0 True (Some (- 5)) rnd = Inr (- 5)
   \<and> (\<exists>d. get_retry_delay 0 True (Some (- 5)) rnd = Inr d \<and> d < 0)"
  by (simp add: get_retry_delay_def RETRY_MAX_DELAY_def)

text \<open>
  C8. The claim says that the rate-limit delay is strictly greater at every attempt.
  What the code gives, without a hint and with the jitter draw 0: the rate-limit delay
  is strictly greater than the other one for the attempts 0 to 4; for the attempts 5 to
  1023 both have reached the ceiling of 60 and are equal.
\<close>

theorem rate_limit_delay_greater_below_ceiling:
  assumes "0 \<le> a"
  shows "(a \<le> 4 \<longrightarrow>
            (\<exists>d d'. get_retry_delay a False None 0 = Inr d
               \<and> get_retry_delay a True None 0 = Inr d' \<and> d < d'))
       \<and> (5 \<le> a \<and> a \<le> 1023 \<longrightarrow>
            get_retry_delay a False None 0 = Inr 60 \<and> get_retry_delay a True None 0 = Inr 60)"
proof (intro conjI impI)
  assume "a \<le> 4"
  then have "nat a \<le> 4"
    by simp
  then have "(2::real) ^ nat a \<le> 2 ^ 4"
    by (intro power_increasing) simp_all
  then have "min (2 * 2 ^ nat a) 60 < min (5 * 2 ^ nat a) (60::real)"
    by simp
  with \<open>a \<le> 4\<close> show "\<exists>d d'. get_retry_delay a False None 0 = Inr d
      \<and> get_retry_delay a True None 0 = Inr d' \<and> d < d'"
    using assms by (simp add: unjittered_delay pow2_nonneg_index)
next
  assume range: "5 \<le> a \<and> a \<le> 1023"
  then have "5 \<le> nat a"
    by auto
  then have "(2::real) ^ 5 \<le> 2 ^ nat a"
    by (intro power_increasing) simp_all
  with range show "get_retry_delay a False None 0 = Inr 60"
    and "get_retry_delay a True None 0 = Inr 60"
    using assms by (simp_all add: unjittered_delay pow2_nonneg_index)
qed

theorem rate_limit_delay_greater_below_ceiling_witness:
  "(\<exists>d d'. get_retry_delay 3 False None 0 = Inr d
      \<and> get_retry_delay 3 True None 0 = Inr d' \<and> d < d')
   \<and> get_retry_delay 6 False None 0 = Inr 60 \<and> get_retry_delay 6 True None 0 = Inr 60"
  using rate_limit_delay_greater_below_ceiling [of 3] rate_limit_delay_greater_below_ceiling [of 6]
  by simp

theorem rate_limit_delay_not_greater_at_ceiling:
  "\<not> (\<exists>d d'. get_retry_delay 5 False None 0 = Inr d
        \<and> get_retry_delay 5 True None 0 = Inr d' \<and> d < d')"
  by (simp add: unjittered_delay pow2_def)

section \<open>Properties of the request loop\<close>

lemma loop_exhausted:
  "\<not> a < n \<Longrightarrow> snd (request_loop w req t n a le) = []"
  by (simp add: request_loop.simps [of w req t n a le] split: option.splits)

lemma loop_step:
  assumes "a < n"
  shows "(\<exists>r. request_loop w req t n a le = (r, [Attempt a]))
       \<or> (\<exists>e evs. request_loop w req t n a le =
              then_events (Attempt a # evs) (request_loop w req t n (a + 1) (Some e))
            \<and> (evs = [] \<or> (\<exists>d. evs = [Sleep d])))"
  using assms
  by (cases "urlopen w req t a")
    (auto simp: request_loop.simps [of w req t n a le] Let_def split: sum.splits)

lemma loop_client_error:
  assumes "a < n" and "urlopen w req t a = HTTP_Failure code reason b raw"
    and "400 \<le> code" and "code < 500" and "code \<noteq> 429"
  shows "request_loop w req t n a le =
     (Inl (HTTPError (new_HTTPError (''HTTP '' @ str_int code @ '': '' @ reason) (Some code) b
        (parse_retry_after w raw))), [Attempt a])"
  using assms by (simp add: request_loop.simps [of w req t n a le])

lemma loop_malformed:
  assumes "a < n" and "urlopen w req t a = Response rb" and "rb \<noteq> []"
    and "json_loads w rb = Inl msg"
  shows "request_loop w req t n a le =
     (Inl (HTTPError (new_HTTPError (''Invalid JSON response: '' @ msg) None None None)),
      [Attempt a])"
  using assms by (simp add: request_loop.simps [of w req t n a le])

lemma loop_terminal_attempt:
  assumes "request_loop w req t n a le = (res, tr)" and "Attempt k \<in> set tr"
    and "\<And>m l. k < m \<Longrightarrow> request_loop w req t m k l = (E, [Attempt k])"
  shows "res = E \<and> last tr = Attempt k"
  using assms(1,2)
proof (induction "nat (n - a)" arbitrary: a le res tr)
  case 0
  then have "\<not> a < n" by simp
  from loop_exhausted [OF this, of w req t le] "0.prems" show ?case by simp
next
  case (Suc d)
  then have an: "a < n" by simp
  show ?case
  proof (cases "k = a")
    case True
    with an have "request_loop w req t n a le = (E, [Attempt k])"
      using assms(3) [of n le] by simp
    with Suc.prems(1) have "res = E" and "tr = [Attempt k]" by auto
    then show ?thesis by simp
  next
    case False
    from loop_step [OF an, of w req t le] consider
      (stop) r where "request_loop w req t n a le = (r, [Attempt a])"
    | (continue) e evs where "request_loop w req t n a le =
          then_events (Attempt a # evs) (request_loop w req t n (a + 1) (Some e))"
        and "evs = [] \<or> (\<exists>d. evs = [Sleep d])"
      by blast
    then show ?thesis
    proof cases
      case stop
      with Suc.prems False show ?thesis by auto
    next
      case (continue e evs)
      note eq = continue(1) and evs = continue(2)
      obtain tr' where rest: "request_loop w req t n (a + 1) (Some e) = (res, tr')"
        and tr: "tr = Attempt a # evs @ tr'"
        using eq Suc.prems(1) by (cases "request_loop w req t n (a + 1) (Some e)")
          (simp add: then_events_def)
      from Suc.prems(2) tr False evs have mem: "Attempt k \<in> set tr'" by auto
      from Suc.hyps(2) have "d = nat (n - (a + 1))" by simp
      from Suc.hyps(1) [OF this rest mem] have "res = E" and l: "last tr' = Attempt k"
        by simp_all
      moreover from mem have "tr' \<noteq> []" by auto
      ultimately show ?thesis using tr by simp
    qed
  qed
qed

lemma request_built:
  assumes "request w method u headers json_data timeout retries = (res, tr)"
    and "Attempt k \<in> set tr"
  obtains req where "build_request w method u headers json_data = Inr req"
    and "request_loop w req timeout retries 0 None = (res, tr)"
  using assms by (cases "build_request w method u headers json_data") (auto simp: request_def)

lemma run_404_second:
  "request world_404_second ''GET'' ''https://example.com/a'' None None 30 3 =
     (Inl (HTTPError \<lparr>message = ''HTTP 404: Not Found'', status_code = Some 404,
        body = Some ''gone'', retry_after = None\<rparr>), [Attempt 0, Sleep 2, Attempt 1])"
  by (simp add: request_def build_request_def request_loop.simps world_404_second_def sleep_def
      get_retry_delay_def RETRY_MAX_DELAY_def RETRY_BASE_DELAY_def pow2_def new_HTTPError_def
      then_events_def parse_retry_after_def str_int_def str_nat.simps)

lemma run_bad_json:
  "request world_bad_json ''GET'' ''https://example.com/a'' None None 30 3 =
     (Inl (HTTPError \<lparr>message = ''Invalid JSON response: Expecting value: line 1 column 1 (char 0)'',
        status_code = None, body = None, retry_after = None\<rparr>), [Attempt 0])"
  by (simp add: request_def build_request_def request_loop.simps world_bad_json_def
      new_HTTPError_def)

text \<open>
  C1. When the attempt \<open>k\<close> of a call of \<^verbatim>\<open>request\<close> is made, the request object was built,
  and when that attempt ends in an HTTP status from 400 to 499 other than 429, or in a
  response with a body that \<^verbatim>\<open>json.loads\<close> rejects, the call raises the \<^verbatim>\<open>HTTPError\<close> of
  that attempt, and the call of \<^verbatim>\<open>urlopen\<close> at attempt \<open>k\<close> is its last effect: no sleep
  and no attempt follows, whatever the number of retries is.
\<close>

theorem request_permanent_failure_immediate:
  assumes "request w method u headers json_data timeout retries = (res, tr)"
    and "Attempt k \<in> set tr"
  shows "\<exists>req. build_request w method u headers json_data = Inr req
       \<and> (\<forall>code reason b raw.
            urlopen w req timeout k = HTTP_Failure code reason b raw
              \<and> 400 \<le> code \<and> code < 500 \<and> code \<noteq> 429 \<longrightarrow>
            res = Inl (HTTPError \<lparr>message = ''HTTP '' @ str_int code @ '': '' @ reason,
                     status_code = Some code, body = b,
                     retry_after = parse_retry_after w raw\<rparr>)
            \<and> last tr = Attempt k)
       \<and> (\<forall>rb msg.
            urlopen w req timeout k = Response rb \<and> rb \<noteq> [] \<and> json_loads w rb = Inl msg \<longrightarrow>
            res = Inl (HTTPError \<lparr>message = ''Invalid JSON response: '' @ msg,
                     status_code = None, body = None, retry_after = None\<rparr>)
            \<and> last tr = Attempt k)"
proof -
  from assms obtain req where built: "build_request w method u headers json_data = Inr req"
    and run: "request_loop w req timeout retries 0 None = (res, tr)"
    by (rule request_built)
  have client: "res = Inl (HTTPError \<lparr>message = ''HTTP '' @ str_int code @ '': '' @ reason,
        status_code = Some code, body = b, retry_after = parse_retry_after w raw\<rparr>)
      \<and> last tr = Attempt k"
    if "urlopen w req timeout k = HTTP_Failure code reason b raw
      \<and> 400 \<le> code \<and> code < 500 \<and> code \<noteq> 429" for code reason b raw
  proof -
    from that have "request_loop w req timeout m k l =
        (Inl (HTTPError (new_HTTPError (''HTTP '' @ str_int code @ '': '' @ reason) (Some code) b
          (parse_retry_after w raw))), [Attempt k])" if "k < m" for m l
      using that by (intro loop_client_error) auto
    from loop_terminal_attempt [OF run assms(2) this] show ?thesis
      by (simp add: new_HTTPError_def)
  qed
  have malformed: "res = Inl (HTTPError \<lparr>message = ''Invalid JSON response: '' @ msg,
        status_code = None, body = None, retry_after = None\<rparr>)
      \<and> last tr = Attempt k"
    if "urlopen w req timeout k = Response rb \<and> rb \<noteq> [] \<and> json_loads w rb = Inl msg"
    for rb msg
  proof -
    from that have "request_loop w req timeout m k l =
        (Inl (HTTPError (new_HTTPError (''Invalid JSON response: '' @ msg) None None None)),
         [Attempt k])" if "k < m" for m l
      using that by (intro loop_malformed) auto
    from loop_terminal_attempt [OF run assms(2) this] show ?thesis
      by (simp add: new_HTTPError_def)
  qed
  from built client malformed show ?thesis
    by blast
qed

theorem request_permanent_failure_immediate_witness:
  "fst (request world_404_second ''GET'' ''https://example.com/a'' None None 30 3) =
     Inl (HTTPError \<lparr>message = ''HTTP 404: Not Found'', status_code = Some 404,
       body = Some ''gone'', retry_after = None\<rparr>)
   \<and> last (snd (request world_404_second ''GET'' ''https://example.com/a'' None None 30 3)) =
     Attempt 1
   \<and> fst (request world_bad_json ''GET'' ''https://example.com/a'' None None 30 3) =
     Inl (HTTPError \<lparr>message = ''Invalid JSON response: Expecting value: line 1 column 1 (char 0)'',
       status_code = None, body = None, retry_after = None\<rparr>)
   \<and> last (snd (request world_bad_json ''GET'' ''https://example.com/a'' None None 30 3)) =
     Attempt 0"
proof -
  let ?r1 = "request world_404_second ''GET'' ''https://example.com/a'' None None 30 3"
  let ?r2 = "request world_bad_json ''GET'' ''https://example.com/a'' None None 30 3"
  have run1: "?r1 = (fst ?r1, snd ?r1)" and run2: "?r2 = (fst ?r2, snd ?r2)"
    by simp_all
  have made1: "Attempt 1 \<in> set (snd ?r1)"
    by (simp add: run_404_second)
  have made2: "Attempt 0 \<in> set (snd ?r2)"
    by (simp add: run_bad_json)
  have out1: "urlopen world_404_second req 30 1 =
      HTTP_Failure 404 ''Not Found'' (Some ''gone'') None" for req
    by (simp add: world_404_second_def)
  have out2: "urlopen world_bad_json req 30 0 = Response ''<html>''" for req
    by (simp add: world_bad_json_def)
  have loads: "json_loads world_bad_json ''<html>'' = Inl ''Expecting value: line 1 column 1 (char 0)''"
    by (simp add: world_bad_json_def)
  from request_permanent_failure_immediate [OF run1 made1]
  have "fst ?r1 = Inl (HTTPError \<lparr>message = ''HTTP 404: Not Found'', status_code = Some 404,
       body = Some ''gone'', retry_after = None\<rparr>) \<and> last (snd ?r1) = Attempt 1"
    unfolding out1 by (simp add: str_int_def str_nat.simps parse_retry_after_def)
  moreover from request_permanent_failure_immediate [OF run2 made2] loads
  have "fst ?r2 = Inl (HTTPError \<lparr>message = ''Invalid JSON response: Expecting value: line 1 column 1 (char 0)'',
       status_code = None, body = None, retry_after = None\<rparr>) \<and> last (snd ?r2) = Attempt 0"
    unfolding out2 by simp
  ultimately show ?thesis
    by simp
qed

text \<open>
  C10. The claim says that every call with \<open>retries \<le> 0\<close> raises the \<^verbatim>\<open>HTTPError\<close> with
  the message \<^verbatim>\<open>Request failed with no error details\<close>. The request object is built
  before the loop: for a URL without a scheme the constructor of
  \<^verbatim>\<open>urllib.request.Request\<close> raises \<^verbatim>\<open>ValueError\<close>, and that error leaves the call. What
  the code gives for \<open>retries \<le> 0\<close>: no attempt is made and no value is returned; the call
  raises the error of \<^verbatim>\<open>json.dumps\<close> or of the constructor when the request cannot be
  built, and otherwise the \<^verbatim>\<open>HTTPError\<close> with that message and no status code, body or
  hint.
\<close>

theorem request_no_attempts:
  assumes "retries \<le> 0"
  shows "request w method u headers json_data timeout retries =
     (case build_request w method u headers json_data of
        Inl err \<Rightarrow> (Inl err, [])
      | Inr req \<Rightarrow>
          (Inl (HTTPError \<lparr>message = ''Request failed with no error details'',
             status_code = None, body = None, retry_after = None\<rparr>), []))"
  using assms by (simp add: request_def request_loop.simps new_HTTPError_def split: sum.splits)

theorem request_no_attempts_witness:
  "request world_bad_json ''GET'' ''https://example.com/a'' None None 30 0 =
     (Inl (HTTPError \<lparr>message = ''Request failed with no error details'', status_code = None,
        body = None, retry_after = None\<rparr>), [])
   \<and> request world_bad_json ''POST'' ''https://example.com/a'' None (Some []) 30 (- 2) =
     (Inl (HTTPError \<lparr>message = ''Request failed with no error details'', status_code = None,
        body = None, retry_after = None\<rparr>), [])
   \<and> request world_checks_url ''GET'' ''https://example.com/a'' None None 30 0 =
     (Inl (HTTPError \<lparr>message = ''Request failed with no error details'', status_code = None,
        body = None, retry_after = None\<rparr>), [])"
  using request_no_attempts [of 0 world_bad_json "''GET''" "''https://example.com/a''" None None 30]
    request_no_attempts [of "- 2" world_bad_json "''POST''" "''https://example.com/a''" None
      "Some []" 30]
    request_no_attempts [of 0 world_checks_url "''GET''" "''https://example.com/a''" None None 30]
  by (simp add: build_request_def world_bad_json_def world_checks_url_def)

theorem request_no_attempts_url_without_scheme:
  "request world_checks_url ''GET'' ''example.com/a'' None None 30 0 =
     (Inl (ValueError (''unknown url type: '' @ [CHR 0x27] @ ''example.com/a'' @ [CHR 0x27])), [])"
  by (simp add: request_def build_request_def world_checks_url_def)

lemma loop_retry_last:
  assumes "a < n" and "\<not> a < n - 1" and "retryable (urlopen w req t a)"
  shows "request_loop w req t n a le =
     (Inl (HTTPError (failure_error w (urlopen w req t a))), [Attempt a])"
proof -
  from assms(1,2) have stop: "\<not> a + 1 < n"
    by simp
  show ?thesis
    using assms
    by (cases "urlopen w req t a")
      (auto simp: request_loop.simps [of w req t n a le]
        request_loop.simps [of w req t n "a + 1"] retryable_def failure_error_def
        then_events_def Let_def)
qed

lemma loop_retry_sleep:
  assumes "a < n - 1" and "retryable (urlopen w req t a)"
    and "backoff w a (urlopen w req t a) = Inr d" and "0 \<le> d"
  shows "request_loop w req t n a le =
     then_events [Attempt a, Sleep d]
       (request_loop w req t n (a + 1) (Some (failure_error w (urlopen w req t a))))"
  using assms
  by (cases "urlopen w req t a")
    (auto simp: request_loop.simps [of w req t n a le] retryable_def failure_error_def
      backoff_def sleep_def Let_def)

lemma loop_exhausts_budget:
  assumes "a < n"
    and "\<forall>k. a \<le> k \<and> k < n \<longrightarrow> retryable (urlopen w req t k)"
    and "\<forall>k. a \<le> k \<and> k < n - 1 \<longrightarrow> (\<exists>d. backoff w k (urlopen w req t k) = Inr d \<and> 0 \<le> d)"
  shows "request_loop w req t n a le =
     (Inl (HTTPError (failure_error w (urlopen w req t (n - 1)))), retry_trace w req t n a)"
  using assms
proof (induction "nat (n - 1 - a)" arbitrary: a le)
  case 0
  then have a: "a = n - 1"
    by simp
  with "0.prems" have "request_loop w req t n a le =
      (Inl (HTTPError (failure_error w (urlopen w req t a))), [Attempt a])"
    by (intro loop_retry_last) simp_all
  then show ?case
    by (simp add: a retry_trace_def)
next
  case (Suc m)
  then have a: "a < n - 1"
    by simp
  let ?e = "failure_error w (urlopen w req t a)"
  from a Suc.prems(3) obtain d where d: "backoff w a (urlopen w req t a) = Inr d" and "0 \<le> d"
    by auto
  from Suc.hyps(2) have m: "m = nat (n - 1 - (a + 1))"
    by simp
  from a Suc.prems have rest: "request_loop w req t n (a + 1) (Some ?e) =
      (Inl (HTTPError (failure_error w (urlopen w req t (n - 1)))), retry_trace w req t n (a + 1))"
    by (intro Suc.hyps(1) [OF m]) simp_all
  from a Suc.prems(2) d \<open>0 \<le> d\<close> have "request_loop w req t n a le =
      then_events [Attempt a, Sleep d] (request_loop w req t n (a + 1) (Some ?e))"
    by (intro loop_retry_sleep) simp_all
  moreover from a have "[a..n - 2] = a # [a + 1..n - 2]"
    by (simp add: upto_rec1)
  ultimately show ?case
    by (simp add: rest then_events_def retry_trace_def d)
qed

text \<open>
  What the loop does when the request object is built, every attempt fails with an
  outcome it retries, and every delay is computed and not negative: it makes every
  attempt, sleeps after each attempt but the last, and raises the error of the last
  attempt.
\<close>

lemma request_exhausts_budget:
  assumes "1 \<le> retries"
    and "build_request w method u headers json_data = Inr req"
    and "\<forall>k. 0 \<le> k \<and> k < retries \<longrightarrow> retryable (urlopen w req timeout k)"
    and "\<forall>k. 0 \<le> k \<and> k < retries - 1 \<longrightarrow>
           (\<exists>d. backoff w k (urlopen w req timeout k) = Inr d \<and> 0 \<le> d)"
  shows "request w method u headers json_data timeout retries =
     (Inl (HTTPError (failure_error w (urlopen w req timeout (retries - 1)))),
      retry_trace w req timeout retries 0)"
  unfolding request_def assms(2)
  using assms(1,3,4) by (simp add: loop_exhausts_budget)

text \<open>
  The scenario of status 500 on every attempt with three retries: three attempts, the
  two waits of 2 and 4 seconds between them, and the error of the third response.
\<close>

lemma request_exhausts_budget_example:
  "request world_always_500 ''GET'' ''https://example.com/a'' None None 30 3 =
     (Inl (HTTPError \<lparr>message = ''HTTP 500: Internal Server Error'', status_code = Some 500,
        body = None, retry_after = None\<rparr>),
      [Attempt 0, Sleep 2, Attempt 1, Sleep 4, Attempt 2])"
proof -
  obtain req where built:
    "build_request world_always_500 ''GET'' ''https://example.com/a'' None None = Inr req"
    by (simp add: build_request_def world_always_500_def)
  have out: "urlopen world_always_500 req 30 k =
      HTTP_Failure 500 ''Internal Server Error'' None None" for k
    by (simp add: world_always_500_def)
  have delay: "backoff world_always_500 k (urlopen world_always_500 req 30 k) = Inr (2 * pow2 k)"
    if "0 \<le> k" and "k < 2" for k
  proof -
    from that have "nat k \<le> 1"
      by simp
    then have "(2::real) ^ nat k \<le> 2 ^ 1"
      by (intro power_increasing) simp_all
    with that show ?thesis
      by (simp add: out backoff_def parse_retry_after_def world_always_500_def unjittered_delay
          pow2_nonneg_index)
  qed
  have "request world_always_500 ''GET'' ''https://example.com/a'' None None 30 3 =
      (Inl (HTTPError (failure_error world_always_500 (urlopen world_always_500 req 30 (3 - 1)))),
       retry_trace world_always_500 req 30 3 0)"
  proof (rule request_exhausts_budget [OF _ built])
    show "\<forall>k. 0 \<le> k \<and> k < 3 \<longrightarrow> retryable (urlopen world_always_500 req 30 k)"
      by (simp add: out retryable_def)
    show "\<forall>k. 0 \<le> k \<and> k < 3 - 1 \<longrightarrow>
        (\<exists>d. backoff world_always_500 k (urlopen world_always_500 req 30 k) = Inr d \<and> 0 \<le> d)"
      using delay pow2_pos by (simp add: less_imp_le)
  qed simp
  moreover have "[0..1::int] = [0, 1]"
    by (simp add: upto_rec1)
  ultimately show ?thesis
    using delay [of 0] delay [of 1]
    by (simp add: retry_trace_def out failure_error_def new_HTTPError_def parse_retry_after_def
        str_int_def str_nat.simps pow2_def)
qed

lemma backoff_nonneg:
  assumes "0 \<le> random_random w k" and "k < 1024"
    and "\<And>code reason b raw h.
      out = HTTP_Failure code reason b raw \<Longrightarrow> parse_retry_after w raw = Some h \<Longrightarrow> 0 \<le> h"
  shows "\<exists>d. backoff w k out = Inr d \<and> 0 \<le> d"
  using assms by (cases out) (auto simp: backoff_def intro!: get_retry_delay_nonneg)

text \<open>
  C4. The claim says that a call whose attempts all fail with a retryable outcome makes
  all its attempts and then raises the \<^verbatim>\<open>HTTPError\<close> of the last one. With two retries
  against 429 responses that carry \<^verbatim>\<open>Retry-After: -5\<close>, the delay is \<open>-5\<close>, \<^verbatim>\<open>time.sleep\<close>
  raises \<^verbatim>\<open>ValueError\<close>, and the call ends after its first attempt.
\<close>

theorem request_negative_hint_stops_retrying:
  "request world_negative_hint ''GET'' ''https://example.com/a'' None None 30 2 =
     (Inl (ValueError ''sleep length must be non-negative''), [Attempt 0])"
  by (simp add: request_def build_request_def request_loop.simps world_negative_hint_def
      sleep_def get_retry_delay_def RETRY_MAX_DELAY_def parse_retry_after_def)

section \<open>Properties of the Reddit path\<close>

lemma reddit_path_endswith_json: "endswith (reddit_path p) ''.json''"
  by (simp add: reddit_path_def endswith_def Let_def suffix_def)

lemma rstrip_keeps_prefix:
  assumes "prefix q s" and "q \<noteq> []" and "last q \<notin> set chars"
  shows "prefix q (rstrip s chars)"
proof -
  from assms(1) obtain r where s: "s = q @ r"
    by (auto simp: prefix_def)
  from assms(2,3) have keep: "dropWhile (\<lambda>c. c \<in> set chars) (rev q) = rev q"
    by (cases q rule: rev_cases) simp_all
  have "\<exists>r'. rev (dropWhile (\<lambda>c. c \<in> set chars) (rev r @ rev q)) = q @ r'"
  proof (cases "\<forall>c \<in> set (rev r). c \<in> set chars")
    case True
    then have "dropWhile (\<lambda>c. c \<in> set chars) (rev r @ rev q) =
        dropWhile (\<lambda>c. c \<in> set chars) (rev q)"
      by (intro dropWhile_append2) simp
    with keep show ?thesis by simp
  next
    case False
    then obtain c where "c \<in> set (rev r)" and "\<not> c \<in> set chars"
      by blast
    then have "dropWhile (\<lambda>c. c \<in> set chars) (rev r @ rev q) =
        dropWhile (\<lambda>c. c \<in> set chars) (rev r) @ rev q"
      by (rule dropWhile_append1)
    then show ?thesis by simp
  qed
  then show ?thesis
    by (auto simp: rstrip_def s)
qed

lemma reddit_path_startswith_slash:
  assumes "\<exists>c \<in> set p. c \<noteq> CHR ''/''"
  shows "startswith (reddit_path p) ''/''"
proof -
  define p1 where "p1 = (if \<not> startswith p ''/'' then ''/'' @ p else p)"
  have slash: "prefix ''/'' p1"
    by (simp add: p1_def startswith_def)
  from assms have "\<exists>c \<in> set p1. c \<noteq> CHR ''/''"
    by (simp add: p1_def)
  then obtain c where "c \<in> set p1" and c: "c \<noteq> CHR ''/''"
    by blast
  then obtain xs ys where split: "p1 = xs @ c # ys"
    by (auto dest: split_list)
  with slash c have "xs \<noteq> []"
    by (cases xs) auto
  with slash split have "prefix ''/'' (xs @ [c])"
    by (cases xs) auto
  moreover have "prefix (xs @ [c]) (rstrip p1 ''/'')"
    using c by (intro rstrip_keeps_prefix) (simp_all add: split)
  ultimately have "prefix ''/'' (rstrip p1 ''/'')"
    by (rule prefix_order.trans)
  then have "prefix ''/'' (rstrip p1 ''/'' @ ''.json'')"
    by (rule prefix_prefix)
  moreover have "reddit_path p =
      (if \<not> endswith (rstrip p1 ''/'') ''.json'' then rstrip p1 ''/'' @ ''.json''
       else rstrip p1 ''/'')"
    by (simp add: reddit_path_def p1_def Let_def)
  ultimately show ?thesis
    using \<open>prefix ''/'' (rstrip p1 ''/'')\<close> by (simp add: startswith_def)
qed

text \<open>
  C6. The claim says that the path always begins with a slash. For the argument \<^verbatim>\<open>/\<close>
  the leading slash is stripped as a trailing one: the path is \<^verbatim>\<open>.json\<close>, and the request
  goes to \<^verbatim>\<open>https://www.reddit.com.json?raw_json=1\<close>.
\<close>

theorem reddit_path_of_slash:
  "reddit_path ''/'' = ''.json'' \<and> \<not> startswith (reddit_path ''/'') ''/''
   \<and> get_reddit_json w ''/'' =
       get w ''https://www.reddit.com.json?raw_json=1''
         (Some [''User-Agent'' \<mapsto> USER_AGENT, ''Accept'' \<mapsto> ''application/json''])
         DEFAULT_TIMEOUT MAX_RETRIES"
  by (simp add: get_reddit_json_def reddit_path_def startswith_def endswith_def rstrip_def
      suffix_to_prefix)

section \<open>Properties of the deduplication\<close>

lemma dedupe_loop_result:
  "dedupe_loop items seen result = result @ dedupe_loop items seen []"
proof (induction items arbitrary: seen result)
  case Nil
  show ?case by simp
next
  case (Cons item items)
  show ?case
  proof (cases "url_key item \<in> seen")
    case True
    with Cons.IH [of seen result] show ?thesis by simp
  next
    case False
    with Cons.IH [of "insert (url_key item) seen" "result @ [item]"]
      Cons.IH [of "insert (url_key item) seen" "[item]"]
    show ?thesis by simp
  qed
qed

lemma dedupe_loop_Cons:
  "dedupe_loop (item # items) seen [] =
     (if url_key item \<in> seen then dedupe_loop items seen []
      else item # dedupe_loop items (insert (url_key item) seen) [])"
  using dedupe_loop_result [of items "insert (url_key item) seen" "[item]"] by simp

lemma dedupe_loop_subseq: "subseq (dedupe_loop items seen []) items"
proof (induction items arbitrary: seen)
  case Nil
  show ?case by simp
next
  case (Cons item items)
  show ?case
    using Cons.IH [of seen] Cons.IH [of "insert (url_key item) seen"]
    by (auto simp: dedupe_loop_Cons simp del: dedupe_loop.simps)
qed

lemma dedupe_loop_keys:
  "set (map url_key (dedupe_loop items seen [])) = set (map url_key items) - seen"
proof (induction items arbitrary: seen)
  case Nil
  show ?case by simp
next
  case (Cons item items)
  show ?case
    using Cons.IH [of seen] Cons.IH [of "insert (url_key item) seen"]
    by (auto simp: dedupe_loop_Cons simp del: dedupe_loop.simps)
qed

lemma dedupe_loop_distinct: "distinct (map url_key (dedupe_loop items seen []))"
proof (induction items arbitrary: seen)
  case Nil
  show ?case by simp
next
  case (Cons item items)
  show ?case
    using Cons.IH [of seen] Cons.IH [of "insert (url_key item) seen"]
      dedupe_loop_keys [of items "insert (url_key item) seen"]
    by (auto simp: dedupe_loop_Cons simp del: dedupe_loop.simps)
qed

lemma dedupe_loop_first:
  "y \<in> set (dedupe_loop items seen []) \<Longrightarrow> find (\<lambda>x. url_key x = url_key y) items = Some y"
proof (induction items arbitrary: seen)
  case Nil
  then show ?case by simp
next
  case (Cons item items)
  show ?case
  proof (cases "url_key item \<in> seen")
    case True
    with Cons.prems have y: "y \<in> set (dedupe_loop items seen [])"
      by (simp add: dedupe_loop_Cons del: dedupe_loop.simps)
    then have "url_key y \<in> set (map url_key (dedupe_loop items seen []))"
      by simp
    with True have "url_key item \<noteq> url_key y"
      unfolding dedupe_loop_keys by auto
    with Cons.IH [OF y] show ?thesis by simp
  next
    case False
    with Cons.prems consider "y = item"
      | "y \<in> set (dedupe_loop items (insert (url_key item) seen) [])"
      by (auto simp: dedupe_loop_Cons simp del: dedupe_loop.simps)
    then show ?thesis
    proof cases
      case 1
      then show ?thesis by simp
    next
      case 2
      then have "url_key y \<in> set (map url_key (dedupe_loop items (insert (url_key item) seen) []))"
        by simp
      then have "url_key item \<noteq> url_key y"
        unfolding dedupe_loop_keys by auto
      with Cons.IH [OF 2] show ?thesis by simp
    qed
  qed
qed

text \<open>
  C9. The result of \<^verbatim>\<open>dedupe_websearch\<close> is a subsequence of its argument (the items it
  keeps are unchanged and in their order), every key of the argument occurs in it
  exactly once, and every item in it is the first item of the argument with its key.
\<close>

theorem dedupe_websearch_first_per_key:
  "subseq (dedupe_websearch items) items
   \<and> distinct (map url_key (dedupe_websearch items))
   \<and> set (map url_key (dedupe_websearch items)) = set (map url_key items)
   \<and> (\<forall>y \<in> set (dedupe_websearch items). find (\<lambda>x. url_key x = url_key y) items = Some y)"
  unfolding dedupe_websearch_def
  using dedupe_loop_subseq [of items "{}"] dedupe_loop_distinct [of items "{}"]
    dedupe_loop_keys [of items "{}"] dedupe_loop_first [of _ items "{}"]
  by simp

lemma example_items_deduped:
  "dedupe_websearch example_items = take 2 example_items"
  by (simp add: dedupe_websearch_def example_items_def url_key_def rstrip_def lower_def
      lower_char_def)

theorem dedupe_websearch_first_per_key_witness:
  "subseq (dedupe_websearch example_items) example_items
   \<and> distinct (map url_key (dedupe_websearch example_items))
   \<and> set (map url_key (dedupe_websearch example_items)) = {''https://example.com/a'', ''https://b.org''}
   \<and> find (\<lambda>x. url_key x = ''https://example.com/a'') example_items = Some (hd example_items)"
proof -
  have keys: "map url_key example_items =
      [''https://example.com/a'', ''https://b.org'', ''https://example.com/a'']"
    by (simp add: example_items_def url_key_def rstrip_def lower_def lower_char_def)
  have first: "hd example_items \<in> set (dedupe_websearch example_items)"
    by (simp add: example_items_deduped) (simp add: example_items_def)
  have key: "url_key (hd example_items) = ''https://example.com/a''"
    using keys by (simp add: example_items_def)
  from dedupe_websearch_first_per_key [of example_items] first
  have "subseq (dedupe_websearch example_items) example_items"
    and "distinct (map url_key (dedupe_websearch example_items))"
    and "set (map url_key (dedupe_websearch example_items)) = set (map url_key example_items)"
    and "find (\<lambda>x. url_key x = url_key (hd example_items)) example_items = Some (hd example_items)"
    by blast+
  then show ?thesis
    unfolding key keys by auto
qed

end
